theory Spec2Isabelle
  imports Main "HOL-Library.AList" "HOL-Library.Char_ord" "HOL-Library.List_Lexorder"
    "HOL-Library.Code_Target_Numeral"
begin

section \<open>The websocket recorder\<close>

text \<open>
  A shallow embedding of \<^verbatim>\<open>websocket_recorder.py\<close>: the class \<^verbatim>\<open>WebsocketRecorder\<close>
  with its methods \<^verbatim>\<open>__init__\<close>, \<^verbatim>\<open>get_msg_seq_no\<close>, \<^verbatim>\<open>generate_filename\<close>,
  \<^verbatim>\<open>opened\<close>, \<^verbatim>\<open>closed\<close> and \<^verbatim>\<open>received_message\<close>, together with the parts of the
  Python library the methods call (\<^verbatim>\<open>str.replace\<close>, \<^verbatim>\<open>os.path.basename\<close>,
  \<^verbatim>\<open>strftime\<close>, \<^verbatim>\<open>json.dumps\<close>, files opened for appending, \<^verbatim>\<open>os.rename\<close>).

  Conventions of the model:
  \<^item> a Python string is a \<^typ>\<open>string\<close>; a character stands for the code point of the
    same number (0 to 255), and strings are ordered as Python orders them, by code point,
    a proper prefix first;
  \<^item> every reading of the clock (\<^verbatim>\<open>datetime.datetime.now()\<close>) and the process id are
    arguments of the method that reads them;
  \<^item> the file system is a map from paths to contents; opening a file for appending and
    writing to an open file succeed (the data directory exists and is writable), and a
    write reaches the file at once (buffering is not modelled);
  \<^item> an exception is a value of \<open>error\<close>; a method that can raise returns the exception,
    if any, together with the state as the statements before the \<^verbatim>\<open>raise\<close> left it;
  \<^item> the log file of the module is not modelled.
\<close>

subsection \<open>Python strings\<close>

datatype error = TypeError | ValueError | OSError

text \<open>\<^verbatim>\<open>s.replace(old, new)\<close> for two strings: every occurrence of \<open>old\<close>, from the left,
  without overlap; an empty \<open>old\<close> matches before every character and at the end.\<close>

function replace_all :: "string \<Rightarrow> string \<Rightarrow> string \<Rightarrow> string" where
  "replace_all old new [] = (if old = [] then new else [])"
| "replace_all old new (c # cs) =
     (if old = [] then new @ c # replace_all old new cs
      else if take (length old) (c # cs) = old
        then new @ replace_all old new (drop (length old) (c # cs))
      else c # replace_all old new cs)"
  by pat_completeness auto
termination
  by (relation "measure (\<lambda>(old, new, s). length s)") auto

text \<open>The method \<^verbatim>\<open>str.replace\<close> as it is called, with the list of its (string)
  arguments: it takes \<open>old\<close> and \<open>new\<close>, and raises \<^verbatim>\<open>TypeError\<close> when given fewer.\<close>

definition str_replace :: "string \<Rightarrow> string list \<Rightarrow> error + string" where
  "str_replace s args =
     (case args of
        [old, new] \<Rightarrow> Inr (replace_all old new s)
      | _ \<Rightarrow> Inl TypeError)"

definition is_digit :: "char \<Rightarrow> bool" where
  "is_digit c \<longleftrightarrow> 48 \<le> (of_char c :: nat) \<and> (of_char c :: nat) \<le> 57"

text \<open>\<^verbatim>\<open>os.path.basename\<close>: what follows the last slash.\<close>

definition basename :: "string \<Rightarrow> string" where
  "basename p = rev (takeWhile (\<lambda>c. c \<noteq> CHR ''/'') (rev p))"

text \<open>The decimal digit of a number below ten; \<open>zfill w n\<close> is \<^verbatim>\<open>"%0wd" % n\<close>: at least
  \<open>w\<close> digits, padded with zeros on the left.\<close>

definition digit :: "nat \<Rightarrow> char" where
  "digit d = char_of (48 + d)"

function zfill :: "nat \<Rightarrow> nat \<Rightarrow> string" where
  "zfill w n =
     (if n < 10 then replicate (w - 1) (CHR ''0'') @ [digit n]
      else zfill (w - 1) (n div 10) @ [digit (n mod 10)])"
  by pat_completeness auto
termination
  by (relation "measure (\<lambda>(w, n). n)") auto

declare zfill.simps [simp del]

definition str_nat :: "nat \<Rightarrow> string" where
  "str_nat n = zfill 1 n"

definition str_int :: "int \<Rightarrow> string" where
  "str_int i = (if i < 0 then CHR ''-'' # str_nat (nat (- i)) else str_nat (nat i))"

subsection \<open>The clock\<close>

record datetime =
  year :: nat
  month :: nat
  day :: nat
  hour :: nat
  minute :: nat
  second :: nat
  microsecond :: nat

text \<open>\<^verbatim>\<open>strftime("%Y-%m-%d")\<close> and \<^verbatim>\<open>strftime("%Y-%m-%d %H:%M:%S.%f UTC")\<close>. The year is
  written with four digits, which is what every platform does from the year 1000 on.\<close>

definition strftime_date :: "datetime \<Rightarrow> string" where
  "strftime_date t = zfill 4 (year t) @ ''-'' @ zfill 2 (month t) @ ''-'' @ zfill 2 (day t)"

definition strftime_utc :: "datetime \<Rightarrow> string" where
  "strftime_utc t =
     strftime_date t @ '' '' @ zfill 2 (hour t) @ '':'' @ zfill 2 (minute t) @ '':''
       @ zfill 2 (second t) @ ''.'' @ zfill 6 (microsecond t) @ '' UTC''"

text \<open>What \<^verbatim>\<open>datetime\<close> guarantees of its fields, with the year from 1000 on.\<close>

definition valid_datetime :: "datetime \<Rightarrow> bool" where
  "valid_datetime t \<longleftrightarrow>
     1000 \<le> year t \<and> year t \<le> 9999 \<and> 1 \<le> month t \<and> month t \<le> 12 \<and> 1 \<le> day t \<and> day t \<le> 31
     \<and> hour t < 24 \<and> minute t < 60 \<and> second t < 60 \<and> microsecond t < 1000000"

subsection \<open>JSON values and \<^verbatim>\<open>json.dumps(..., sort_keys=True)\<close>\<close>

text \<open>The values a message dictionary holds: \<^verbatim>\<open>None\<close>, booleans, integers, strings, lists
  and dictionaries with string keys (in insertion order). Floating point numbers are left
  out.\<close>

datatype jval =
    JNull
  | JBool bool
  | JInt int
  | JStr string
  | JList "jval list"
  | JDict "(string \<times> jval) list"

type_synonym dict = "(string \<times> jval) list"

text \<open>The hexadecimal digit of a number below sixteen, in lower case.\<close>

definition hexdigit :: "nat \<Rightarrow> char" where
  "hexdigit d = (if d < 10 then char_of (48 + d) else char_of (87 + d))"

text \<open>One character of a string, as \<^verbatim>\<open>py_encode_basestring_ascii\<close> writes it: the
  backslash, the double quote and the control characters with a short escape by that
  escape, every other character outside the range from space to tilde as \<^verbatim>\<open>\u00xx\<close>.\<close>

definition escape_char :: "char \<Rightarrow> string" where
  "escape_char c =
     (if c = CHR 0x5C then [CHR 0x5C, CHR 0x5C]
      else if c = CHR 0x22 then [CHR 0x5C, CHR 0x22]
      else if c = CHR 0x08 then [CHR 0x5C, CHR ''b'']
      else if c = CHR 0x0C then [CHR 0x5C, CHR ''f'']
      else if c = CHR 0x0A then [CHR 0x5C, CHR ''n'']
      else if c = CHR 0x0D then [CHR 0x5C, CHR ''r'']
      else if c = CHR 0x09 then [CHR 0x5C, CHR ''t'']
      else if (of_char c :: nat) < 32 \<or> 126 < (of_char c :: nat)
        then [CHR 0x5C, CHR ''u'', CHR ''0'', CHR ''0'',
              hexdigit (of_char c div 16), hexdigit (of_char c mod 16)]
      else [c])"

definition encode_basestring_ascii :: "string \<Rightarrow> string" where
  "encode_basestring_ascii s = CHR 0x22 # concat (map escape_char s) @ [CHR 0x22]"

fun join :: "string \<Rightarrow> string list \<Rightarrow> string" where
  "join sep [] = []"
| "join sep [x] = x"
| "join sep (x # y # ys) = x @ sep @ join sep (y # ys)"

text \<open>\<^verbatim>\<open>json.dumps(v, sort_keys=True)\<close> with the default separators. The items of a
  dictionary are written in the order of their keys.\<close>

fun dumps :: "jval \<Rightarrow> string" where
  "dumps JNull = ''null''"
| "dumps (JBool b) = (if b then ''true'' else ''false'')"
| "dumps (JInt i) = str_int i"
| "dumps (JStr s) = encode_basestring_ascii s"
| "dumps (JList vs) = ''['' @ join '', '' (map dumps vs) @ '']''"
| "dumps (JDict kvs) =
     ''{'' @ join '', ''
        (map (\<lambda>(k, item). encode_basestring_ascii k @ '': '' @ item)
           (sort_key fst (map (\<lambda>(k, v). (k, dumps v)) kvs)))
      @ ''}''"

text \<open>\<^verbatim>\<open>d.update(e)\<close>: the items of \<open>e\<close> are stored in \<open>d\<close> one after the other.\<close>

definition dict_update :: "dict \<Rightarrow> dict \<Rightarrow> dict" where
  "dict_update d e = fold (\<lambda>(k, v). AList.update k v) e d"

subsection \<open>\<^verbatim>\<open>json.loads\<close>\<close>












text \<open>A dictionary holds every key once: the association lists of a value have distinct
  keys.\<close>

fun wf_jval :: "jval \<Rightarrow> bool" where
  "wf_jval (JList vs) \<longleftrightarrow> (\<forall>v \<in> set vs. wf_jval v)"
| "wf_jval (JDict kvs) \<longleftrightarrow> distinct (map fst kvs) \<and> (\<forall>kv \<in> set kvs. wf_jval (snd kv))"
| "wf_jval v \<longleftrightarrow> True"




subsection \<open>Files\<close>

record file_object =
  name :: string
  is_closed :: bool

type_synonym disk = "string \<rightharpoonup> string"

text \<open>\<^verbatim>\<open>open(path, "a")\<close> creates the file when it is not there and leaves its contents
  alone when it is.\<close>

definition open_append :: "string \<Rightarrow> disk \<Rightarrow> file_object \<times> disk" where
  "open_append path d =
     (\<lparr>name = path, is_closed = False\<rparr>,
      (case d path of None \<Rightarrow> d(path \<mapsto> []) | Some _ \<Rightarrow> d))"

text \<open>\<^verbatim>\<open>f.write(data)\<close> raises \<^verbatim>\<open>ValueError\<close> on a closed file, and otherwise appends.\<close>

definition file_write :: "file_object \<Rightarrow> string \<Rightarrow> disk \<Rightarrow> error + disk" where
  "file_write f data d =
     (if is_closed f then Inl ValueError
      else Inr (d(name f \<mapsto> (case d (name f) of None \<Rightarrow> data | Some c \<Rightarrow> c @ data))))"

definition file_close :: "file_object \<Rightarrow> file_object" where
  "file_close f = f\<lparr>is_closed := True\<rparr>"

text \<open>\<^verbatim>\<open>os.rename(src, dst)\<close> raises \<^verbatim>\<open>OSError\<close> when there is no \<open>src\<close>, and otherwise
  moves the contents, replacing \<open>dst\<close>.\<close>

definition os_rename :: "string \<Rightarrow> string \<Rightarrow> disk \<Rightarrow> error + disk" where
  "os_rename src dst d =
     (case d src of
        None \<Rightarrow> Inl OSError
      | Some c \<Rightarrow> Inr ((d(src := None))(dst \<mapsto> c)))"

subsection \<open>The class \<^verbatim>\<open>WebsocketRecorder\<close>\<close>

text \<open>The attributes of the object, the file system it writes to (\<open>disk\<close>) and the
  messages it has sent to the endpoint (\<open>outbox\<close>).\<close>

record recorder =
  url :: string
  initial_msg_out :: "string list"
  data_file_lines :: int
  lines_counter :: int
  ws_name :: string
  hostname :: string
  data_dir :: string
  data_file :: file_object
  msg_seq_no :: int
  full_message :: dict
  heartbeat_freq :: int
  disk :: disk
  outbox :: "string list"

definition get_msg_seq_no :: "recorder \<Rightarrow> int \<times> recorder" where
  "get_msg_seq_no self =
     (let self' = self\<lparr>msg_seq_no := msg_seq_no self + 1\<rparr>
      in (msg_seq_no self', self'))"

definition generate_filename :: "datetime \<Rightarrow> recorder \<Rightarrow> string" where
  "generate_filename now self =
     (let date_part = strftime_date now;
          filename = data_dir self @ ''/'' @ date_part @ ''_'' @ ws_name self @ ''_''
                       @ hostname self @ ''.json.open''
      in filename)"

text \<open>\<^verbatim>\<open>__init__\<close>. \<open>now\<close> is the clock when the data file is named, \<open>now'\<close> the clock when
  \<^verbatim>\<open>session_start\<close> is taken, \<open>pid\<close> the process id, \<open>d\<close> the file system.\<close>

definition init ::
  "datetime \<Rightarrow> datetime \<Rightarrow> nat \<Rightarrow> disk \<Rightarrow> string \<Rightarrow> string \<Rightarrow> string list \<Rightarrow> int \<Rightarrow> string
     \<Rightarrow> string \<Rightarrow> int \<Rightarrow> dict \<Rightarrow> recorder" where
  "init now now' pid d data_dir' url' initial_msg_out' data_file_lines' hostname' ws_name'
      hb_seconds extra_data =
     (let self = \<lparr>url = url', initial_msg_out = initial_msg_out',
                  data_file_lines = data_file_lines', lines_counter = 0,
                  ws_name = ws_name', hostname = hostname', data_dir = data_dir',
                  data_file = \<lparr>name = [], is_closed = True\<rparr>, msg_seq_no = 0,
                  full_message = [], heartbeat_freq = hb_seconds, disk = d, outbox = []\<rparr>;
          (f, d') = open_append (generate_filename now self) (disk self);
          self = self\<lparr>data_file := f, disk := d'\<rparr>;
          self = self\<lparr>msg_seq_no := 0\<rparr>;
          self = self\<lparr>full_message :=
                   [(''msg_seq_no'', JNull),
                    (''url'', JStr (url self)),
                    (''machine_id'', JStr (hostname self)),
                    (''pid'', JStr (str_nat pid)),
                    (''ws_name'', JStr (ws_name self)),
                    (''session_start'', JStr (strftime_utc now')),
                    (''ts_utc'', JNull),
                    (''websocket_msg'', JNull)]\<rparr>
      in if length extra_data > 0
         then self\<lparr>full_message := dict_update (full_message self) extra_data\<rparr>
         else self)"

definition send :: "string \<Rightarrow> recorder \<Rightarrow> recorder" where
  "send message self = self\<lparr>outbox := outbox self @ [message]\<rparr>"

definition opened :: "recorder \<Rightarrow> recorder" where
  "opened self =
     (if length (initial_msg_out self) > 0 then fold send (initial_msg_out self) self
      else self)"

definition closed :: "int \<Rightarrow> string \<Rightarrow> recorder \<Rightarrow> recorder" where
  "closed code reason self = self\<lparr>data_file := file_close (data_file self)\<rparr>"

text \<open>\<^verbatim>\<open>self.data_file.write(json.dumps(self.full_message, sort_keys=True) + "\n")\<close>\<close>

definition write_full_message :: "recorder \<Rightarrow> error option \<times> recorder" where
  "write_full_message self =
     (case file_write (data_file self) (dumps (JDict (full_message self)) @ [CHR 0x0A])
             (disk self) of
        Inl e \<Rightarrow> (Some e, self)
      | Inr d' \<Rightarrow> (None, self\<lparr>disk := d'\<rparr>))"

text \<open>The \<^verbatim>\<open>else\<close> branch of \<^verbatim>\<open>received_message\<close> (the rotation): close the data
  file, rename it, open the data file of the day and write the message there.
  \<open>current_path\<close> is \<^verbatim>\<open>self.data_file.name\<close>, \<open>now'\<close> the clock when the new file is named.\<close>

definition rotate :: "datetime \<Rightarrow> recorder \<Rightarrow> error option \<times> recorder" where
  "rotate now' self =
     (let current_path = name (data_file self);
          self = self\<lparr>data_file := file_close (data_file self)\<rparr>
      in case str_replace current_path [''.open''] of
           Inl e \<Rightarrow> (Some e, self)
         | Inr finished \<Rightarrow>
            (case os_rename current_path finished (disk self) of
               Inl e \<Rightarrow> (Some e, self)
             | Inr d' \<Rightarrow>
                (let self = self\<lparr>disk := d'\<rparr>;
                     (f, d'') = open_append (generate_filename now' self) (disk self);
                     self = self\<lparr>data_file := f, disk := d''\<rparr>
                 in write_full_message self)))"

text \<open>\<^verbatim>\<open>received_message\<close>. \<open>now\<close> is the clock when \<^verbatim>\<open>ts_utc\<close> is taken, \<open>now'\<close> the
  clock of the rotation. \<open>ts_utc\<close> is the value the method reads back from
  \<^verbatim>\<open>self.full_message['ts_utc']\<close>; \<^verbatim>\<open>str\<close> of the message is its text.\<close>

definition received_message ::
  "datetime \<Rightarrow> datetime \<Rightarrow> string \<Rightarrow> recorder \<Rightarrow> error option \<times> recorder" where
  "received_message now now' websocket_msg self =
     (let (n, self) = get_msg_seq_no self;
          self = self\<lparr>full_message := AList.update ''msg_seq_no'' (JInt n) (full_message self)\<rparr>;
          ts_utc = strftime_utc now;
          self = self\<lparr>full_message := AList.update ''ts_utc'' (JStr ts_utc) (full_message self)\<rparr>
      in case str_replace websocket_msg [[CHR 0x0A], []] of
           Inl e \<Rightarrow> (Some e, self)
         | Inr text \<Rightarrow>
            (let self = self\<lparr>full_message :=
                          AList.update ''websocket_msg'' (JStr text) (full_message self)\<rparr>
             in if take 10 ts_utc = take 10 (basename (name (data_file self)))
                then write_full_message self
                else rotate now' self))"

text \<open>The events of a session, each with the two readings of the clock that
  \<^verbatim>\<open>received_message\<close> may take, delivered one after the other. An exception ends the
  delivery in the client library; \<open>deliver\<close> goes on, so that it covers every state that
  any number of calls can reach.\<close>

record event =
  at :: datetime
  at_open :: datetime
  payload :: string

fun deliver :: "event list \<Rightarrow> recorder \<Rightarrow> recorder" where
  "deliver [] self = self"
| "deliver (e # es) self =
     deliver es (snd (received_message (at e) (at_open e) (payload e) self))"

subsection \<open>What a session writes\<close>

text \<open>The message dictionary after the three assignments of \<^verbatim>\<open>received_message\<close>, and the
  line that \<^verbatim>\<open>received_message\<close> writes for the event \<open>e\<close> when it gets the sequence
  number \<open>n\<close> and the dictionary was \<open>fm\<close> before.\<close>

definition stamp :: "int \<Rightarrow> string \<Rightarrow> string \<Rightarrow> dict \<Rightarrow> dict" where
  "stamp n ts text fm =
     AList.update ''websocket_msg'' (JStr text)
       (AList.update ''ts_utc'' (JStr ts) (AList.update ''msg_seq_no'' (JInt n) fm))"

definition strip_newlines :: "string \<Rightarrow> string" where
  "strip_newlines s = filter (\<lambda>c. c \<noteq> CHR 0x0A) s"

definition record_of :: "dict \<Rightarrow> int \<Rightarrow> event \<Rightarrow> dict" where
  "record_of fm n e = stamp n (strftime_utc (at e)) (strip_newlines (payload e)) fm"

definition record_line :: "dict \<Rightarrow> int \<Rightarrow> event \<Rightarrow> string" where
  "record_line fm n e = dumps (JDict (record_of fm n e)) @ [CHR 0x0A]"

text \<open>The lines of the events \<open>es\<close>, numbered from \<open>n + 1\<close> on.\<close>

fun record_lines :: "dict \<Rightarrow> int \<Rightarrow> event list \<Rightarrow> string list" where
  "record_lines fm n [] = []"
| "record_lines fm n (e # es) = record_line fm (n + 1) e # record_lines fm (n + 1) es"

text \<open>The event is of the day the open data file is named for: the comparison of
  \<^verbatim>\<open>received_message\<close>.\<close>

definition same_day :: "recorder \<Rightarrow> event \<Rightarrow> bool" where
  "same_day self e \<longleftrightarrow>
     take 10 (strftime_utc (at e)) = take 10 (basename (name (data_file self)))"

definition per_record_keys :: "string set" where
  "per_record_keys = {''msg_seq_no'', ''ts_utc'', ''websocket_msg''}"

subsection \<open>The scenario of the specification\<close>

text \<open>A recorder for the endpoint \<open>feedA\<close> on the host \<open>hostX\<close>, writing to \<^verbatim>\<open>/tmp/rec\<close>,
  constructed on 2024-01-01 on an empty file system.\<close>

definition jan_1 :: datetime where
  "jan_1 = \<lparr>year = 2024, month = 1, day = 1, hour = 23, minute = 59, second = 58,
             microsecond = 120034\<rparr>"

definition jan_2 :: datetime where
  "jan_2 = \<lparr>year = 2024, month = 1, day = 2, hour = 0, minute = 0, second = 1,
             microsecond = 250\<rparr>"

definition feedA :: recorder where
  "feedA = init jan_1 jan_1 4242 Map.empty ''/tmp/rec'' ''wss://feed.example/stream''
             [''subscribe''] 1000 ''hostX'' ''feedA'' 30 []"

definition ev :: "datetime \<Rightarrow> string \<Rightarrow> event" where
  "ev t m = \<lparr>at = t, at_open = t, payload = m\<rparr>"

text \<open>The same recorder, constructed with \<^verbatim>\<open>extra_data = {"msg_seq_no": 99}\<close>.\<close>

definition feedA_99 :: recorder where
  "feedA_99 = init jan_1 jan_1 4242 Map.empty ''/tmp/rec'' ''wss://feed.example/stream''
                [''subscribe''] 1000 ''hostX'' ''feedA'' 30 [(''msg_seq_no'', JInt 99)]"

section \<open>Properties\<close>

subsection \<open>The library calls\<close>

lemma replace_all_newline: "replace_all [CHR 0x0A] [] s = strip_newlines s"
  by (induction s) (simp_all add: strip_newlines_def)

lemma str_replace_newline: "str_replace s [[CHR 0x0A], []] = Inr (strip_newlines s)"
  by (simp add: str_replace_def replace_all_newline)

lemma str_replace_one_argument: "str_replace s [old] = Inl TypeError"
  by (simp add: str_replace_def)

lemma of_char_digit: "d < 10 \<Longrightarrow> (of_char (digit d) :: nat) = 48 + d"
  by (simp add: digit_def)

lemma is_digit_digit: "d < 10 \<Longrightarrow> is_digit (digit d)"
  by (simp add: is_digit_def of_char_digit)

lemma is_digit_zfill: "c \<in> set (zfill w n) \<Longrightarrow> is_digit c"
proof (induction w n rule: zfill.induct)
  case (1 w n)
  show ?case
  proof (cases "n < 10")
    case True
    have "is_digit (CHR ''0'')" by (simp add: is_digit_def)
    with True "1.prems" is_digit_digit [of n] show ?thesis
      by (subst (asm) zfill.simps) (auto split: if_splits)
  next
    case False
    have "is_digit (digit (n mod 10))" by (simp add: is_digit_digit)
    with False "1.prems" "1.IH" show ?thesis
      by (subst (asm) zfill.simps) auto
  qed
qed

lemma newline_notin_zfill: "CHR 0x0A \<notin> set (zfill w n)"
  using is_digit_zfill [of "CHR 0x0A" w n] by (auto simp add: is_digit_def)

lemma newline_notin_str_int: "CHR 0x0A \<notin> set (str_int i)"
  by (simp add: str_int_def str_nat_def newline_notin_zfill)

lemma of_char_hexdigit:
  "d < 16 \<Longrightarrow> (of_char (hexdigit d) :: nat) = (if d < 10 then 48 + d else 87 + d)"
  by (simp add: hexdigit_def)

lemma hexdigit_not_newline: "d < 16 \<Longrightarrow> hexdigit d \<noteq> CHR 0x0A"
proof
  assume "d < 16" and "hexdigit d = CHR 0x0A"
  then have "(if d < 10 then 48 + d else 87 + d) = (of_char (CHR 0x0A) :: nat)"
    by (simp only: of_char_hexdigit [symmetric])
  then show False by (simp split: if_splits)
qed

lemma of_char_div_16: "(of_char c :: nat) div 16 < 16"
proof -
  have "(of_char c :: nat) < 256" by simp
  then show ?thesis by (intro less_mult_imp_div_less) simp
qed

lemma newline_notin_escape_char: "CHR 0x0A \<notin> set (escape_char c)"
  using hexdigit_not_newline [OF of_char_div_16, of c]
    hexdigit_not_newline [of "of_char c mod 16"]
  by (simp add: escape_char_def)

lemma newline_notin_encode: "CHR 0x0A \<notin> set (encode_basestring_ascii s)"
  by (simp add: encode_basestring_ascii_def newline_notin_escape_char)

lemma set_join: "set (join sep xs) \<subseteq> set sep \<union> (\<Union>x\<in>set xs. set x)"
  by (induction sep xs rule: join.induct) auto

lemma newline_notin_join:
  "CHR 0x0A \<notin> set sep \<Longrightarrow> (\<And>x. x \<in> set xs \<Longrightarrow> CHR 0x0A \<notin> set x)
     \<Longrightarrow> CHR 0x0A \<notin> set (join sep xs)"
  using set_join [of sep xs] by auto

lemma newline_notin_dumps: "CHR 0x0A \<notin> set (dumps v)"
proof (induction v)
  case (JList vs)
  have "CHR 0x0A \<notin> set (join '', '' (map dumps vs))"
    by (rule newline_notin_join) (use JList.IH in auto)
  then show ?case by simp
next
  case (JDict kvs)
  have "CHR 0x0A \<notin> set (join '', ''
        (map (\<lambda>(k, item). encode_basestring_ascii k @ '': '' @ item)
           (sort_key fst (map (\<lambda>(k, v). (k, dumps v)) kvs))))"
  proof (rule newline_notin_join)
    show "CHR 0x0A \<notin> set '', ''" by simp
  next
    fix x
    assume "x \<in> set (map (\<lambda>(k, item). encode_basestring_ascii k @ '': '' @ item)
           (sort_key fst (map (\<lambda>(k, v). (k, dumps v)) kvs)))"
    then obtain k v where kv: "(k, v) \<in> set kvs"
      and x: "x = encode_basestring_ascii k @ '': '' @ dumps v"
      by auto
    from kv JDict.IH have "CHR 0x0A \<notin> set (dumps v)"
      by fastforce
    with x show "CHR 0x0A \<notin> set x"
      by (simp add: newline_notin_encode)
  qed
  then show ?case by simp
qed (simp_all add: newline_notin_str_int newline_notin_encode)

subsection \<open>One call of \<^verbatim>\<open>received_message\<close>\<close>

text \<open>The rotation always raises: \<^verbatim>\<open>current_path.replace(".open")\<close> is a call of
  \<^verbatim>\<open>str.replace\<close> with one argument.\<close>

lemma rotate_raises:
  "rotate now' self = (Some TypeError, self\<lparr>data_file := file_close (data_file self)\<rparr>)"
  by (simp add: rotate_def str_replace_one_argument)

lemma write_full_message_eq:
  "write_full_message self =
     (if is_closed (data_file self) then (Some ValueError, self)
      else (None, self\<lparr>disk := (disk self)(name (data_file self) \<mapsto>
              (case disk self (name (data_file self)) of None \<Rightarrow> [] | Some c \<Rightarrow> c)
                @ dumps (JDict (full_message self)) @ [CHR 0x0A])\<rparr>))"
  by (auto simp add: write_full_message_def file_write_def split: option.splits)

lemma received_message_eq:
  "received_message now now' websocket_msg self =
     (let self' = self\<lparr>msg_seq_no := msg_seq_no self + 1,
                        full_message := stamp (msg_seq_no self + 1) (strftime_utc now)
                          (strip_newlines websocket_msg) (full_message self)\<rparr>
      in if take 10 (strftime_utc now) = take 10 (basename (name (data_file self)))
         then write_full_message self'
         else (Some TypeError, self'\<lparr>data_file := file_close (data_file self)\<rparr>))"
  by (simp add: received_message_def get_msg_seq_no_def str_replace_newline rotate_raises
      stamp_def Let_def)

subsection \<open>The message dictionary\<close>

lemma map_of_stamp:
  "map_of (stamp n ts text fm) =
     (map_of fm)(''msg_seq_no'' \<mapsto> JInt n, ''ts_utc'' \<mapsto> JStr ts, ''websocket_msg'' \<mapsto> JStr text)"
  by (simp add: stamp_def update_conv')


lemma distinct_stamp:
  "distinct (map fst (stamp n ts text fm)) = distinct (map fst fm)"
  by (auto simp add: stamp_def update_keys)

lemma full_message_received:
  "full_message (snd (received_message now now' websocket_msg self))
     = stamp (msg_seq_no self + 1) (strftime_utc now) (strip_newlines websocket_msg)
         (full_message self)"
  by (simp add: received_message_eq write_full_message_eq Let_def)

lemma msg_seq_no_received:
  "msg_seq_no (snd (received_message now now' websocket_msg self)) = msg_seq_no self + 1"
  by (simp add: received_message_eq write_full_message_eq Let_def)

lemma received_ok_iff:
  "fst (received_message now now' websocket_msg self) = None \<longleftrightarrow>
     take 10 (strftime_utc now) = take 10 (basename (name (data_file self)))
       \<and> \<not> is_closed (data_file self)"
  by (simp add: received_message_eq write_full_message_eq Let_def)

lemma disk_received:
  "disk (snd (received_message now now' websocket_msg self)) =
     (if fst (received_message now now' websocket_msg self) = None
      then (disk self)(name (data_file self) \<mapsto>
             (case disk self (name (data_file self)) of None \<Rightarrow> [] | Some c \<Rightarrow> c)
               @ dumps (JDict (full_message (snd (received_message now now' websocket_msg self))))
               @ [CHR 0x0A])
      else disk self)"
  by (simp add: received_message_eq write_full_message_eq Let_def)

lemma name_received:
  "name (data_file (snd (received_message now now' websocket_msg self))) = name (data_file self)"
  by (simp add: received_message_eq write_full_message_eq Let_def file_close_def)

lemma is_closed_received:
  "is_closed (data_file (snd (received_message now now' websocket_msg self))) \<longleftrightarrow>
     fst (received_message now now' websocket_msg self) \<noteq> None"
  by (auto simp add: received_message_eq write_full_message_eq Let_def file_close_def)

lemma msg_seq_no_deliver: "msg_seq_no (deliver es self) = msg_seq_no self + int (length es)"
  by (induction es arbitrary: self) (simp_all add: msg_seq_no_received)

lemma name_deliver: "name (data_file (deliver es self)) = name (data_file self)"
  by (induction es arbitrary: self) (simp_all add: name_received)

lemma map_of_dict_update:
  "map_of (dict_update d e) k = (case map_of (rev e) k of None \<Rightarrow> map_of d k | Some v \<Rightarrow> Some v)"
  unfolding dict_update_def
proof (induction e arbitrary: d)
  case Nil
  then show ?case by simp
next
  case (Cons kv e)
  obtain k' v' where kv: "kv = (k', v')" by (cases kv)
  show ?case
    by (simp add: kv Cons.IH update_conv' map_add_def split: option.splits)
qed

lemma map_of_rev_distinct:
  "distinct (map fst e) \<Longrightarrow> map_of (rev e) k = map_of e k"
proof (induction e)
  case Nil
  then show ?case by simp
next
  case (Cons x e)
  then have "fst x \<notin> fst ` set e" by simp
  then have "map_of e (fst x) = None" by (simp add: map_of_eq_None_iff)
  with Cons show ?case
    by (cases x) (auto simp add: map_add_def split: option.splits)
qed

subsection \<open>A session\<close>

lemma update_commute:
  "k \<noteq> k' \<Longrightarrow> k \<in> fst ` set al \<Longrightarrow>
     AList.update k v (AList.update k' v' al) = AList.update k' v' (AList.update k v al)"
  by (induction al) auto

lemma stamp_stamp: "stamp n ts text (stamp n' ts' text' fm) = stamp n ts text fm"
proof -
  let ?a = "AList.update ''msg_seq_no'' (JInt n') fm"
  let ?b = "AList.update ''ts_utc'' (JStr ts') ?a"
  let ?c = "AList.update ''websocket_msg'' (JStr text') ?b"
  have "AList.update ''msg_seq_no'' (JInt n) ?c
          = AList.update ''websocket_msg'' (JStr text') (AList.update ''msg_seq_no'' (JInt n) ?b)"
    by (rule update_commute) (simp_all add: dom_update)
  also have "AList.update ''msg_seq_no'' (JInt n) ?b
          = AList.update ''ts_utc'' (JStr ts') (AList.update ''msg_seq_no'' (JInt n) ?a)"
    by (rule update_commute) (simp_all add: dom_update)
  finally have 1: "AList.update ''msg_seq_no'' (JInt n) ?c
          = AList.update ''websocket_msg'' (JStr text')
              (AList.update ''ts_utc'' (JStr ts') (AList.update ''msg_seq_no'' (JInt n) fm))"
    by simp
  let ?a' = "AList.update ''msg_seq_no'' (JInt n) fm"
  have 2: "AList.update ''ts_utc'' (JStr ts)
             (AList.update ''websocket_msg'' (JStr text') (AList.update ''ts_utc'' (JStr ts') ?a'))
          = AList.update ''websocket_msg'' (JStr text') (AList.update ''ts_utc'' (JStr ts) ?a')"
  proof -
    have "AList.update ''ts_utc'' (JStr ts)
             (AList.update ''websocket_msg'' (JStr text') (AList.update ''ts_utc'' (JStr ts') ?a'))
          = AList.update ''websocket_msg'' (JStr text')
              (AList.update ''ts_utc'' (JStr ts) (AList.update ''ts_utc'' (JStr ts') ?a'))"
      by (rule update_commute) (simp_all add: dom_update)
    then show ?thesis by simp
  qed
  show ?thesis
    unfolding stamp_def 1 2 by simp
qed

lemma record_line_stamp: "record_line (stamp n ts text fm) n' e = record_line fm n' e"
  by (simp add: record_line_def record_of_def stamp_stamp)

lemma record_lines_stamp: "record_lines (stamp n ts text fm) n' es = record_lines fm n' es"
  by (induction es arbitrary: n') (simp_all add: record_line_stamp)

lemma received_failed:
  assumes "fst (received_message now now' m self) \<noteq> None"
  shows "is_closed (data_file (snd (received_message now now' m self)))"
    and "disk (snd (received_message now now' m self)) = disk self"
  using assms
  by (auto simp add: received_message_eq write_full_message_eq Let_def file_close_def
      split: if_splits)

lemma closed_stays_closed:
  "is_closed (data_file self) \<Longrightarrow>
     is_closed (data_file (deliver es self)) \<and> disk (deliver es self) = disk self"
proof (induction es arbitrary: self)
  case Nil
  then show ?case by simp
next
  case (Cons e es)
  let ?s = "snd (received_message (at e) (at_open e) (payload e) self)"
  from Cons.prems have "fst (received_message (at e) (at_open e) (payload e) self) \<noteq> None"
    by (simp add: received_ok_iff)
  then have "is_closed (data_file ?s)" and "disk ?s = disk self"
    by (simp_all add: received_failed del: dumps.simps)
  with Cons.IH [of ?s] show ?case by simp
qed

lemma same_day_received:
  "same_day (snd (received_message now now' m self)) e = same_day self e"
  by (simp add: same_day_def name_received)

lemma deliver_disk:
  assumes "\<not> is_closed (data_file self)" and "disk self (name (data_file self)) = Some old"
  shows "disk (deliver es self) =
           (disk self)(name (data_file self) \<mapsto>
              old @ concat (record_lines (full_message self) (msg_seq_no self)
                              (takeWhile (same_day self) es)))"
  using assms
proof (induction es arbitrary: self old)
  case Nil
  then show ?case by (simp add: fun_upd_idem)
next
  case (Cons e es)
  let ?r = "received_message (at e) (at_open e) (payload e) self"
  let ?s = "snd ?r"
  show ?case
  proof (cases "same_day self e")
    case True
    with Cons.prems have ok: "fst ?r = None"
      by (simp add: received_ok_iff same_day_def)
    then have op: "\<not> is_closed (data_file ?s)"
      by (simp add: is_closed_received)
    have fm: "full_message ?s = stamp (msg_seq_no self + 1) (strftime_utc (at e))
                (strip_newlines (payload e)) (full_message self)"
      by (rule full_message_received)
    have line: "dumps (JDict (full_message ?s)) @ [CHR 0x0A]
                  = record_line (full_message self) (msg_seq_no self + 1) e"
      by (simp add: fm record_line_def record_of_def)
    have d: "disk ?s = (disk self)(name (data_file self) \<mapsto>
               old @ record_line (full_message self) (msg_seq_no self + 1) e)"
      using ok Cons.prems(2) line by (simp add: disk_received)
    then have d': "disk ?s (name (data_file ?s))
                     = Some (old @ record_line (full_message self) (msg_seq_no self + 1) e)"
      by (simp add: name_received)
    have sd: "same_day ?s = same_day self"
      by (rule ext) (rule same_day_received)
    have "disk (deliver es ?s) =
            (disk ?s)(name (data_file ?s) \<mapsto>
              (old @ record_line (full_message self) (msg_seq_no self + 1) e)
                @ concat (record_lines (full_message ?s) (msg_seq_no ?s)
                            (takeWhile (same_day ?s) es)))"
      by (rule Cons.IH [OF op d'])
    also have "\<dots> = (disk self)(name (data_file self) \<mapsto>
              old @ record_line (full_message self) (msg_seq_no self + 1) e
                @ concat (record_lines (full_message self) (msg_seq_no self + 1)
                            (takeWhile (same_day self) es)))"
      unfolding d name_received sd fm record_lines_stamp msg_seq_no_received
      by (simp only: fun_upd_upd append_assoc)
    finally show ?thesis
      using True by simp
  next
    case False
    then have "fst ?r \<noteq> None"
      by (simp add: received_ok_iff same_day_def)
    then have "is_closed (data_file ?s)" and "disk ?s = disk self"
      by (simp_all add: received_failed del: dumps.simps)
    with closed_stays_closed [of ?s es] False Cons.prems(2) show ?thesis
      by (simp add: fun_upd_idem)
  qed
qed

lemma length_record_lines: "length (record_lines fm n es) = length es"
  by (induction es arbitrary: n) simp_all

lemma nth_record_lines:
  "i < length es \<Longrightarrow> record_lines fm n es ! i = record_line fm (n + 1 + int i) (es ! i)"
proof (induction es arbitrary: n i)
  case Nil
  then show ?case by simp
next
  case (Cons e es)
  then show ?case by (cases i) (simp_all add: add.assoc)
qed

lemma full_message_deliver:
  "k \<notin> per_record_keys \<Longrightarrow> map_of (full_message (deliver es self)) k = map_of (full_message self) k"
proof (induction es arbitrary: self)
  case Nil
  then show ?case by simp
next
  case (Cons e es)
  then show ?case
    by (simp add: full_message_received map_of_stamp per_record_keys_def)
qed

lemma init_fields:
  "msg_seq_no (init now now' pid d dir u msgs n host ws hb extra) = 0
   \<and> lines_counter (init now now' pid d dir u msgs n host ws hb extra) = 0
   \<and> data_file (init now now' pid d dir u msgs n host ws hb extra)
       = \<lparr>name = dir @ ''/'' @ strftime_date now @ ''_'' @ ws @ ''_'' @ host @ ''.json.open'',
          is_closed = False\<rparr>
   \<and> disk (init now now' pid d dir u msgs n host ws hb extra)
        (dir @ ''/'' @ strftime_date now @ ''_'' @ ws @ ''_'' @ host @ ''.json.open'')
       = Some (case d (dir @ ''/'' @ strftime_date now @ ''_'' @ ws @ ''_'' @ host @ ''.json.open'')
               of None \<Rightarrow> [] | Some c \<Rightarrow> c)"
  by (simp add: init_def generate_filename_def open_append_def Let_def split: option.splits)

subsection \<open>The scenario\<close>

lemma strftime_date_jan_1: "strftime_date jan_1 = ''2024-01-01''"
  unfolding jan_1_def by code_simp

lemma strftime_utc_jan_1: "strftime_utc jan_1 = ''2024-01-01 23:59:58.120034 UTC''"
  unfolding jan_1_def by code_simp

lemma strftime_utc_jan_2: "strftime_utc jan_2 = ''2024-01-02 00:00:01.000250 UTC''"
  unfolding jan_2_def by code_simp

lemma data_file_feedA:
  "data_file feedA = \<lparr>name = ''/tmp/rec/2024-01-01_feedA_hostX.json.open'', is_closed = False\<rparr>"
  unfolding feedA_def by (simp add: init_fields strftime_date_jan_1)

lemma disk_feedA: "disk feedA = [''/tmp/rec/2024-01-01_feedA_hostX.json.open'' \<mapsto> []]"
  unfolding feedA_def
  by (simp add: init_def generate_filename_def open_append_def Let_def strftime_date_jan_1)

lemma msg_seq_no_feedA: "msg_seq_no feedA = 0"
  unfolding feedA_def by (simp add: init_fields)

lemma full_message_feedA:
  "full_message feedA =
     [(''msg_seq_no'', JNull), (''url'', JStr ''wss://feed.example/stream''),
      (''machine_id'', JStr ''hostX''), (''pid'', JStr ''4242''), (''ws_name'', JStr ''feedA''),
      (''session_start'', JStr ''2024-01-01 23:59:58.120034 UTC''), (''ts_utc'', JNull),
      (''websocket_msg'', JNull)]"
proof -
  have "str_nat 4242 = ''4242''" by code_simp
  then show ?thesis
    unfolding feedA_def
    by (simp add: init_def generate_filename_def open_append_def Let_def strftime_utc_jan_1)
qed

lemma basename_feedA:
  "take 10 (basename ''/tmp/rec/2024-01-01_feedA_hostX.json.open'') = ''2024-01-01''"
  by code_simp

lemma same_day_feedA_jan_1: "same_day feedA (ev jan_1 m)"
  by (simp add: same_day_def data_file_feedA basename_feedA ev_def strftime_utc_jan_1)

lemma same_day_feedA_jan_2: "\<not> same_day feedA (ev jan_2 m)"
  by (simp add: same_day_def data_file_feedA basename_feedA ev_def strftime_utc_jan_2)

lemma line_1: \<open>record_line (full_message feedA) 1 (ev jan_1 ''a'') =
  ''{"machine_id": "hostX", "msg_seq_no": 1, "pid": "4242", "session_start": "2024-01-01 23:59:58.120034 UTC", "ts_utc": "2024-01-01 23:59:58.120034 UTC", "url": "wss://feed.example/stream", "websocket_msg": "a", "ws_name": "feedA"}\<newline>''\<close>
  unfolding full_message_feedA record_line_def record_of_def ev_def jan_1_def
  by code_simp

subsection \<open>The claims\<close>

text \<open>
  \<^bold>\<open>C5\<close>. On connection close the recorder closes the open data file and does nothing
  else: the handle keeps its path, \<^verbatim>\<open>.open\<close> suffix included, no file is renamed or
  written, and the sequence counter, the message dictionary and every other attribute
  stay as they were. For a recorder that was just constructed, the path of the closed
  file is still the one generated at construction, ending in \<^verbatim>\<open>.json.open\<close>.
\<close>

theorem closed_does_not_rename:
  "closed code reason self
     = self\<lparr>data_file := \<lparr>name = name (data_file self), is_closed = True\<rparr>\<rparr>
   \<and> disk (closed code reason self) = disk self
   \<and> msg_seq_no (closed code reason self) = msg_seq_no self
   \<and> full_message (closed code reason self) = full_message self
   \<and> name (data_file (closed code reason
          (init now now' pid d dir u msgs n host ws hb extra)))
       = dir @ ''/'' @ strftime_date now @ ''_'' @ ws @ ''_'' @ host @ ''.json.open''"
  by (simp add: closed_def file_close_def init_def generate_filename_def open_append_def
      Let_def)

text \<open>
  \<^bold>\<open>C4\<close>. For every payload, the \<^verbatim>\<open>websocket_msg\<close> field of the message dictionary after
  \<^verbatim>\<open>received_message\<close> is the text of the message with every newline character removed
  (nothing is put in its place). The serialised dictionary contains no newline character
  at all, and a call that raises nothing appends exactly that serialisation followed by
  one newline to the open data file; a call that raises leaves every file as it was.
\<close>

theorem payload_newlines_removed:
  "map_of (full_message (snd (received_message now now' websocket_msg self))) ''websocket_msg''
     = Some (JStr (filter (\<lambda>c. c \<noteq> CHR 0x0A) websocket_msg))
   \<and> CHR 0x0A \<notin> set (dumps (JDict (full_message (snd (received_message now now' websocket_msg self)))))
   \<and> disk (snd (received_message now now' websocket_msg self)) =
       (if fst (received_message now now' websocket_msg self) = None
        then (disk self)(name (data_file self) \<mapsto>
               (case disk self (name (data_file self)) of None \<Rightarrow> [] | Some c \<Rightarrow> c)
                 @ dumps (JDict (full_message (snd (received_message now now' websocket_msg self))))
                 @ [CHR 0x0A])
        else disk self)"
proof (intro conjI)
  show "map_of (full_message (snd (received_message now now' websocket_msg self))) ''websocket_msg''
     = Some (JStr (filter (\<lambda>c. c \<noteq> CHR 0x0A) websocket_msg))"
    by (simp add: full_message_received map_of_stamp strip_newlines_def)
  show "CHR 0x0A \<notin> set (dumps (JDict (full_message (snd (received_message now now' websocket_msg self)))))"
    by (rule newline_notin_dumps)
  show "disk (snd (received_message now now' websocket_msg self)) =
       (if fst (received_message now now' websocket_msg self) = None
        then (disk self)(name (data_file self) \<mapsto>
               (case disk self (name (data_file self)) of None \<Rightarrow> [] | Some c \<Rightarrow> c)
                 @ dumps (JDict (full_message (snd (received_message now now' websocket_msg self))))
                 @ [CHR 0x0A])
        else disk self)"
    by (rule disk_received)
qed

lemma received_feedA_b:
  "fst (received_message jan_1 jan_1 ''b\<newline>'' feedA) = None"
  by (simp add: received_ok_iff data_file_feedA basename_feedA strftime_utc_jan_1)

text \<open>The second event of the scenario, \<^verbatim>\<open>"b\n"\<close>, is recorded as \<^verbatim>\<open>"b"\<close>.\<close>

theorem payload_newlines_removed_witness:
  "map_of (full_message (snd (received_message jan_1 jan_1 ''b\<newline>'' feedA))) ''websocket_msg''
     = Some (JStr ''b'')
   \<and> CHR 0x0A \<notin> set (dumps (JDict (full_message (snd (received_message jan_1 jan_1 ''b\<newline>'' feedA)))))
   \<and> disk (snd (received_message jan_1 jan_1 ''b\<newline>'' feedA))
        ''/tmp/rec/2024-01-01_feedA_hostX.json.open''
      = Some (dumps (JDict (full_message (snd (received_message jan_1 jan_1 ''b\<newline>'' feedA))))
               @ [CHR 0x0A])"
  using payload_newlines_removed [of jan_1 jan_1 "''b\<newline>''" feedA]
  by (simp add: received_feedA_b data_file_feedA disk_feedA del: dumps.simps)

lemma lines_counter_received:
  "lines_counter (snd (received_message now now' m self)) = lines_counter self"
  by (simp add: received_message_eq write_full_message_eq Let_def)

lemma lines_counter_deliver: "lines_counter (deliver es self) = lines_counter self"
  by (induction es arbitrary: self) (simp_all add: lines_counter_received)

lemma received_data_file_lines:
  "received_message now now' m (self\<lparr>data_file_lines := n\<rparr>)
     = (fst (received_message now now' m self),
        (snd (received_message now now' m self))\<lparr>data_file_lines := n\<rparr>)"
  by (simp add: received_message_eq write_full_message_eq Let_def)

lemma deliver_data_file_lines:
  "deliver es (self\<lparr>data_file_lines := n\<rparr>) = (deliver es self)\<lparr>data_file_lines := n\<rparr>"
  by (induction es arbitrary: self) (simp_all add: received_data_file_lines)

lemma init_data_file_lines:
  "init now now' pid d dir u msgs n host ws hb extra
     = (init now now' pid d dir u msgs n' host ws hb extra)\<lparr>data_file_lines := n\<rparr>"
  by (simp add: init_def generate_filename_def open_append_def Let_def split: option.splits)

text \<open>
  \<^bold>\<open>C9\<close>. The value of \<^verbatim>\<open>data_file_lines\<close> has no effect: two recorders constructed with
  different values differ in that attribute only, a call of \<^verbatim>\<open>received_message\<close> and the
  delivery of any events return the same exception and the same state up to that
  attribute, and so the files are the same. \<^verbatim>\<open>lines_counter\<close> is 0 after construction and
  no method changes it.
\<close>

theorem data_file_lines_unused:
  "init now now' pid d dir u msgs n host ws hb extra
     = (init now now' pid d dir u msgs n' host ws hb extra)\<lparr>data_file_lines := n\<rparr>
   \<and> received_message t t' m (self\<lparr>data_file_lines := n\<rparr>)
     = (fst (received_message t t' m self),
        (snd (received_message t t' m self))\<lparr>data_file_lines := n\<rparr>)
   \<and> deliver es (self\<lparr>data_file_lines := n\<rparr>) = (deliver es self)\<lparr>data_file_lines := n\<rparr>
   \<and> disk (deliver es (init now now' pid d dir u msgs n host ws hb extra))
     = disk (deliver es (init now now' pid d dir u msgs n' host ws hb extra))
   \<and> lines_counter (deliver es (init now now' pid d dir u msgs n host ws hb extra)) = 0
   \<and> lines_counter (closed code reason self) = lines_counter self
   \<and> lines_counter (opened self) = lines_counter self"
proof -
  have "disk (deliver es (init now now' pid d dir u msgs n host ws hb extra))
     = disk (deliver es (init now now' pid d dir u msgs n' host ws hb extra))"
    by (subst init_data_file_lines [of _ _ _ _ _ _ _ n _ _ _ _ n'])
      (simp add: deliver_data_file_lines)
  moreover have "lines_counter (opened self) = lines_counter self"
  proof -
    have "lines_counter (fold send ms s) = lines_counter s" for ms s
      by (induction ms arbitrary: s) (simp_all add: send_def)
    then show ?thesis by (simp add: opened_def)
  qed
  ultimately show ?thesis
    using init_data_file_lines [of now now' pid d dir u msgs n host ws hb extra n']
    by (simp add: received_data_file_lines deliver_data_file_lines lines_counter_deliver
        init_fields closed_def)
qed

lemma full_message_init:
  "map_of (full_message (init now now' pid d dir u msgs n host ws hb extra)) k =
     (case map_of (rev extra) k of
        Some v \<Rightarrow> Some v
      | None \<Rightarrow>
          map_of [(''msg_seq_no'', JNull), (''url'', JStr u), (''machine_id'', JStr host),
                  (''pid'', JStr (str_nat pid)), (''ws_name'', JStr ws),
                  (''session_start'', JStr (strftime_utc now')), (''ts_utc'', JNull),
                  (''websocket_msg'', JNull)] k)"
proof (cases "extra = []")
  case True
  then show ?thesis
    by (simp add: init_def generate_filename_def open_append_def Let_def)
next
  case False
  then show ?thesis
    by (simp add: init_def generate_filename_def open_append_def Let_def map_of_dict_update
        split: option.splits)
qed

lemma disk_init:
  "disk (init now now' pid d dir u msgs n host ws hb extra)
     (name (data_file (init now now' pid d dir u msgs n host ws hb extra)))
   = Some (case d (name (data_file (init now now' pid d dir u msgs n host ws hb extra)))
           of None \<Rightarrow> [] | Some c \<Rightarrow> c)"
  by (simp add: init_def generate_filename_def open_append_def Let_def split: option.splits)

text \<open>
  \<^bold>\<open>C10\<close>. When a key of \<^verbatim>\<open>extra_data\<close> is one of \<^verbatim>\<open>msg_seq_no\<close>, \<^verbatim>\<open>ts_utc\<close> and
  \<^verbatim>\<open>websocket_msg\<close>, the constructed dictionary holds the caller's value under it. After
  every call of \<^verbatim>\<open>received_message\<close> the three keys hold the sequence number, the time
  stamp and the stripped text of that call, and the line a successful call appends to the
  data file is the serialisation of that dictionary, the one after the assignments. So
  the file of a session from construction holds, after what it held before, the lines
  \<open>record_lines\<close> of the events up to the first failing call, and line \<open>i\<close> of them (from 0)
  carries under the three keys the number \<open>i + 1\<close>, the time stamp and the stripped text of
  event \<open>i\<close>, whatever the caller gave: the first line already.
\<close>

theorem per_record_keys_overwritten:
  assumes "distinct (map fst extra)" and "k \<in> per_record_keys" and "map_of extra k = Some v"
  shows "map_of (full_message (init now now' pid d dir u msgs n host ws hb extra)) k = Some v
   \<and> map_of (full_message (snd (received_message t t' m self))) ''msg_seq_no''
       = Some (JInt (msg_seq_no self + 1))
   \<and> map_of (full_message (snd (received_message t t' m self))) ''ts_utc''
       = Some (JStr (strftime_utc t))
   \<and> map_of (full_message (snd (received_message t t' m self))) ''websocket_msg''
       = Some (JStr (filter (\<lambda>c. c \<noteq> CHR 0x0A) m))
   \<and> disk (snd (received_message t t' m self)) =
       (if fst (received_message t t' m self) = None
        then (disk self)(name (data_file self) \<mapsto>
               (case disk self (name (data_file self)) of None \<Rightarrow> [] | Some c \<Rightarrow> c)
                 @ dumps (JDict (full_message (snd (received_message t t' m self))))
                 @ [CHR 0x0A])
        else disk self)
   \<and> disk (deliver es (init now now' pid d dir u msgs n host ws hb extra))
        (name (data_file (init now now' pid d dir u msgs n host ws hb extra)))
       = Some ((case d (name (data_file (init now now' pid d dir u msgs n host ws hb extra)))
                  of None \<Rightarrow> [] | Some c \<Rightarrow> c)
               @ concat (record_lines
                   (full_message (init now now' pid d dir u msgs n host ws hb extra)) 0
                   (takeWhile (same_day (init now now' pid d dir u msgs n host ws hb extra)) es)))
   \<and> (\<forall>i < length es.
         record_lines fm 0 es ! i = dumps (JDict (record_of fm (int i + 1) (es ! i))) @ [CHR 0x0A]
         \<and> map_of (record_of fm (int i + 1) (es ! i)) ''msg_seq_no'' = Some (JInt (int i + 1))
         \<and> map_of (record_of fm (int i + 1) (es ! i)) ''ts_utc''
             = Some (JStr (strftime_utc (at (es ! i))))
         \<and> map_of (record_of fm (int i + 1) (es ! i)) ''websocket_msg''
             = Some (JStr (filter (\<lambda>c. c \<noteq> CHR 0x0A) (payload (es ! i)))))"
proof -
  let ?s = "init now now' pid d dir u msgs n host ws hb extra"
  have op: "\<not> is_closed (data_file ?s)"
    by (simp add: init_fields)
  have session: "disk (deliver es ?s) (name (data_file ?s))
       = Some ((case d (name (data_file ?s)) of None \<Rightarrow> [] | Some c \<Rightarrow> c)
               @ concat (record_lines (full_message ?s) 0 (takeWhile (same_day ?s) es)))"
    using deliver_disk [OF op disk_init, of es] by (simp add: init_fields del: dumps.simps)
  have lines: "\<forall>i < length es.
         record_lines fm 0 es ! i = dumps (JDict (record_of fm (int i + 1) (es ! i))) @ [CHR 0x0A]
         \<and> map_of (record_of fm (int i + 1) (es ! i)) ''msg_seq_no'' = Some (JInt (int i + 1))
         \<and> map_of (record_of fm (int i + 1) (es ! i)) ''ts_utc''
             = Some (JStr (strftime_utc (at (es ! i))))
         \<and> map_of (record_of fm (int i + 1) (es ! i)) ''websocket_msg''
             = Some (JStr (filter (\<lambda>c. c \<noteq> CHR 0x0A) (payload (es ! i))))"
    by (simp add: nth_record_lines record_line_def record_of_def map_of_stamp add.commute
        strip_newlines_def del: dumps.simps)
  have first: "map_of (full_message ?s) k = Some v"
    using assms by (simp add: full_message_init map_of_rev_distinct)
  have call: "map_of (full_message (snd (received_message t t' m self))) ''msg_seq_no''
       = Some (JInt (msg_seq_no self + 1))
   \<and> map_of (full_message (snd (received_message t t' m self))) ''ts_utc''
       = Some (JStr (strftime_utc t))
   \<and> map_of (full_message (snd (received_message t t' m self))) ''websocket_msg''
       = Some (JStr (filter (\<lambda>c. c \<noteq> CHR 0x0A) m))"
    by (simp add: full_message_received map_of_stamp strip_newlines_def)
  from first call disk_received [of t t' m self] session lines show ?thesis
    by (intro conjI) blast+
qed

lemma data_file_feedA_99:
  "data_file feedA_99 = \<lparr>name = ''/tmp/rec/2024-01-01_feedA_hostX.json.open'', is_closed = False\<rparr>"
  unfolding feedA_99_def by (simp add: init_fields strftime_date_jan_1)

lemma disk_feedA_99: "disk feedA_99 = [''/tmp/rec/2024-01-01_feedA_hostX.json.open'' \<mapsto> []]"
  unfolding feedA_99_def
  by (simp add: init_def generate_filename_def open_append_def Let_def strftime_date_jan_1)

lemma full_message_feedA_99:
  "full_message feedA_99 =
     [(''msg_seq_no'', JInt 99), (''url'', JStr ''wss://feed.example/stream''),
      (''machine_id'', JStr ''hostX''), (''pid'', JStr ''4242''), (''ws_name'', JStr ''feedA''),
      (''session_start'', JStr ''2024-01-01 23:59:58.120034 UTC''), (''ts_utc'', JNull),
      (''websocket_msg'', JNull)]"
proof -
  have "str_nat 4242 = ''4242''" by code_simp
  then show ?thesis
    unfolding feedA_99_def
    by (simp add: init_def generate_filename_def open_append_def Let_def strftime_utc_jan_1
        dict_update_def)
qed

lemma line_1_feedA_99: \<open>dumps (JDict (stamp 1 (strftime_utc jan_1) (strip_newlines ''a'')
      (full_message feedA_99))) @ [CHR 0x0A] =
  ''{"machine_id": "hostX", "msg_seq_no": 1, "pid": "4242", "session_start": "2024-01-01 23:59:58.120034 UTC", "ts_utc": "2024-01-01 23:59:58.120034 UTC", "url": "wss://feed.example/stream", "websocket_msg": "a", "ws_name": "feedA"}\<newline>''\<close>
  unfolding full_message_feedA_99 jan_1_def
  by code_simp

text \<open>A recorder constructed with \<^verbatim>\<open>extra_data = {"msg_seq_no": 99}\<close>: 99 at construction,
  1 after the first event and in the line it writes, the first of the file.\<close>

theorem per_record_keys_overwritten_witness:
  \<open>distinct (map fst [(''msg_seq_no'', JInt 99)])
   \<and> ''msg_seq_no'' \<in> per_record_keys
   \<and> map_of [(''msg_seq_no'', JInt 99)] ''msg_seq_no'' = Some (JInt 99)
   \<and> map_of (full_message feedA_99) ''msg_seq_no'' = Some (JInt 99)
   \<and> fst (received_message jan_1 jan_1 ''a'' feedA_99) = None
   \<and> map_of (full_message (snd (received_message jan_1 jan_1 ''a'' feedA_99))) ''msg_seq_no''
       = Some (JInt 1)
   \<and> disk (snd (received_message jan_1 jan_1 ''a'' feedA_99))
        ''/tmp/rec/2024-01-01_feedA_hostX.json.open''
       = Some ''{"machine_id": "hostX", "msg_seq_no": 1, "pid": "4242", "session_start": "2024-01-01 23:59:58.120034 UTC", "ts_utc": "2024-01-01 23:59:58.120034 UTC", "url": "wss://feed.example/stream", "websocket_msg": "a", "ws_name": "feedA"}\<newline>''\<close>
proof -
  have 1: "distinct (map fst [(''msg_seq_no'', JInt 99)])" by simp
  have 2: "''msg_seq_no'' \<in> per_record_keys" by (simp add: per_record_keys_def)
  have 3: "map_of [(''msg_seq_no'', JInt 99)] ''msg_seq_no'' = Some (JInt 99)" by simp
  have ok: "fst (received_message jan_1 jan_1 ''a'' feedA_99) = None"
    by (simp add: received_ok_iff data_file_feedA_99 basename_feedA strftime_utc_jan_1)
  have seq: "msg_seq_no feedA_99 = 0"
    unfolding feedA_99_def by (simp add: init_fields)
  have fm: "full_message (snd (received_message jan_1 jan_1 ''a'' feedA_99))
              = stamp 1 (strftime_utc jan_1) (strip_newlines ''a'') (full_message feedA_99)"
    by (simp add: full_message_received seq)
  note t = per_record_keys_overwritten [OF 1 2 3, where t = jan_1 and t' = jan_1 and m = "''a''"
      and now = jan_1 and now' = jan_1 and pid = 4242 and d = Map.empty and dir = "''/tmp/rec''"
      and u = "''wss://feed.example/stream''" and msgs = "[''subscribe'']" and n = 1000
      and host = "''hostX''" and ws = "''feedA''" and hb = 30 and self = feedA_99,
      folded feedA_99_def]
  have a: "map_of (full_message feedA_99) ''msg_seq_no'' = Some (JInt 99)"
    by (rule t [THEN conjunct1])
  have b: "map_of (full_message (snd (received_message jan_1 jan_1 ''a'' feedA_99)))
                    ''msg_seq_no'' = Some (JInt (msg_seq_no feedA_99 + 1))"
    by (rule t [THEN conjunct2, THEN conjunct1])
  have "disk (snd (received_message jan_1 jan_1 ''a'' feedA_99)) =
       (if fst (received_message jan_1 jan_1 ''a'' feedA_99) = None
        then (disk feedA_99)(name (data_file feedA_99) \<mapsto>
               (case disk feedA_99 (name (data_file feedA_99)) of None \<Rightarrow> [] | Some c \<Rightarrow> c)
                 @ dumps (JDict (full_message (snd (received_message jan_1 jan_1 ''a'' feedA_99))))
                 @ [CHR 0x0A])
        else disk feedA_99)"
    by (rule t [THEN conjunct2, THEN conjunct2, THEN conjunct2, THEN conjunct2, THEN conjunct1])
  then have c: "disk (snd (received_message jan_1 jan_1 ''a'' feedA_99))
        ''/tmp/rec/2024-01-01_feedA_hostX.json.open''
       = Some (dumps (JDict (stamp 1 (strftime_utc jan_1) (strip_newlines ''a'')
                  (full_message feedA_99))) @ [CHR 0x0A])"
    by (simp only: ok fm data_file_feedA_99 disk_feedA_99) (simp del: dumps.simps)
  from 1 2 3 a b c ok show ?thesis
    by (simp only: line_1_feedA_99 seq) simp
qed

lemma msg_seq_no_opened: "msg_seq_no (opened self) = msg_seq_no self"
proof -
  have "msg_seq_no (fold send ms s) = msg_seq_no s" for ms s
    by (induction ms arbitrary: s) (simp_all add: send_def)
  then show ?thesis by (simp add: opened_def)
qed

text \<open>
  \<^bold>\<open>C2\<close>. The counter is 0 after construction, every call of \<^verbatim>\<open>received_message\<close> adds
  exactly one to it and stores the new value under \<^verbatim>\<open>msg_seq_no\<close>, whatever branch the
  call takes, and \<^verbatim>\<open>closed\<close> and \<^verbatim>\<open>opened\<close> leave it alone: after \<open>n\<close> delivered events it
  is \<open>n\<close>. What a session appends to its data file is the lines of the events up to the
  first one that is not of the file's day, and the line of the \<open>i\<close>-th of them (counting
  from 0) carries the sequence number \<open>i + 1\<close>.
\<close>

theorem sequence_numbers:
  "msg_seq_no (init now now' pid d dir u msgs n host ws hb extra) = 0
   \<and> msg_seq_no (snd (received_message t t' m self)) = msg_seq_no self + 1
   \<and> map_of (full_message (snd (received_message t t' m self))) ''msg_seq_no''
       = Some (JInt (msg_seq_no self + 1))
   \<and> msg_seq_no (deliver es (init now now' pid d dir u msgs n host ws hb extra))
       = int (length es)
   \<and> msg_seq_no (closed code reason self) = msg_seq_no self
   \<and> msg_seq_no (opened self) = msg_seq_no self
   \<and> disk (deliver es (init now now' pid d dir u msgs n host ws hb extra))
        (name (data_file (init now now' pid d dir u msgs n host ws hb extra)))
       = Some ((case d (name (data_file (init now now' pid d dir u msgs n host ws hb extra)))
                  of None \<Rightarrow> [] | Some c \<Rightarrow> c)
               @ concat (record_lines
                   (full_message (init now now' pid d dir u msgs n host ws hb extra)) 0
                   (takeWhile (same_day (init now now' pid d dir u msgs n host ws hb extra)) es)))
   \<and> (\<forall>i < length es.
         record_lines fm 0 es ! i = record_line fm (int i + 1) (es ! i)
         \<and> map_of (record_of fm (int i + 1) (es ! i)) ''msg_seq_no'' = Some (JInt (int i + 1)))"
proof -
  let ?s = "init now now' pid d dir u msgs n host ws hb extra"
  have op: "\<not> is_closed (data_file ?s)"
    by (simp add: init_fields)
  have ex: "disk ?s (name (data_file ?s))
              = Some (case d (name (data_file ?s)) of None \<Rightarrow> [] | Some c \<Rightarrow> c)"
    by (rule disk_init)
  have "disk (deliver es ?s) (name (data_file ?s))
       = Some ((case d (name (data_file ?s)) of None \<Rightarrow> [] | Some c \<Rightarrow> c)
               @ concat (record_lines (full_message ?s) 0 (takeWhile (same_day ?s) es)))"
    using deliver_disk [OF op ex, of es] by (simp add: init_fields del: dumps.simps)
  moreover have "\<forall>i < length es.
         record_lines fm 0 es ! i = record_line fm (int i + 1) (es ! i)
         \<and> map_of (record_of fm (int i + 1) (es ! i)) ''msg_seq_no'' = Some (JInt (int i + 1))"
    by (simp add: nth_record_lines record_of_def map_of_stamp add.commute)
  ultimately show ?thesis
    by (simp add: init_fields msg_seq_no_received msg_seq_no_deliver full_message_received
        map_of_stamp msg_seq_no_opened closed_def del: dumps.simps)
qed

lemma line_2: \<open>record_line (full_message feedA) 2 (ev jan_1 ''b\<newline>'') =
  ''{"machine_id": "hostX", "msg_seq_no": 2, "pid": "4242", "session_start": "2024-01-01 23:59:58.120034 UTC", "ts_utc": "2024-01-01 23:59:58.120034 UTC", "url": "wss://feed.example/stream", "websocket_msg": "b", "ws_name": "feedA"}\<newline>''\<close>
  unfolding full_message_feedA record_line_def record_of_def ev_def jan_1_def
  by code_simp

text \<open>The scenario: three events, the third on the next day. The counter is 3, the file
  holds the lines of the first two events, numbered 1 and 2.\<close>

theorem sequence_numbers_witness:
  "msg_seq_no (deliver [ev jan_1 ''a'', ev jan_1 ''b\<newline>'', ev jan_2 ''c''] feedA) = 3
   \<and> record_lines (full_message feedA) 0 [ev jan_1 ''a'', ev jan_1 ''b\<newline>'', ev jan_2 ''c''] ! 1
       = record_line (full_message feedA) 2 (ev jan_1 ''b\<newline>'')
   \<and> map_of (record_of (full_message feedA) 2 (ev jan_1 ''b\<newline>'')) ''msg_seq_no''
       = Some (JInt 2)
   \<and> disk (deliver [ev jan_1 ''a'', ev jan_1 ''b\<newline>'', ev jan_2 ''c''] feedA)
        ''/tmp/rec/2024-01-01_feedA_hostX.json.open''
       = Some (record_line (full_message feedA) 1 (ev jan_1 ''a'')
               @ record_line (full_message feedA) 2 (ev jan_1 ''b\<newline>''))"
proof -
  let ?es = "[ev jan_1 ''a'', ev jan_1 ''b\<newline>'', ev jan_2 ''c'']"
  note t = sequence_numbers [where now = jan_1 and now' = jan_1 and pid = 4242
      and d = Map.empty and dir = "''/tmp/rec''" and u = "''wss://feed.example/stream''"
      and msgs = "[''subscribe'']" and n = 1000 and host = "''hostX''" and ws = "''feedA''"
      and hb = 30 and extra = "[]" and es = ?es and fm = "full_message feedA",
      folded feedA_def]
  from t have a: "msg_seq_no (deliver ?es feedA) = int (length ?es)"
    by blast
  from t have "\<forall>i < length ?es.
         record_lines (full_message feedA) 0 ?es ! i
           = record_line (full_message feedA) (int i + 1) (?es ! i)
         \<and> map_of (record_of (full_message feedA) (int i + 1) (?es ! i)) ''msg_seq_no''
           = Some (JInt (int i + 1))"
    by blast
  from this [rule_format, of 1]
  have b: "record_lines (full_message feedA) 0 ?es ! 1
             = record_line (full_message feedA) 2 (ev jan_1 ''b\<newline>'')
           \<and> map_of (record_of (full_message feedA) 2 (ev jan_1 ''b\<newline>'')) ''msg_seq_no''
             = Some (JInt 2)"
    by (simp del: record_lines.simps)
  from t have "disk (deliver ?es feedA) (name (data_file feedA))
       = Some ((case Map.empty (name (data_file feedA)) of None \<Rightarrow> [] | Some c \<Rightarrow> c)
               @ concat (record_lines (full_message feedA) 0 (takeWhile (same_day feedA) ?es)))"
    by blast
  then have c: "disk (deliver ?es feedA) ''/tmp/rec/2024-01-01_feedA_hostX.json.open''
       = Some (record_line (full_message feedA) 1 (ev jan_1 ''a'')
               @ record_line (full_message feedA) 2 (ev jan_1 ''b\<newline>''))"
    by (simp add: data_file_feedA same_day_feedA_jan_1 same_day_feedA_jan_2)
  from a b c show ?thesis by simp
qed

text \<open>With the data file open, \<^verbatim>\<open>received_message\<close> takes its branch by comparing two
  strings, the first ten characters of the time stamp it has just formatted and the first
  ten characters of the base name of the path the open file goes by: after the three
  assignments (the state \<open>self'\<close>) it writes to the open file when they are equal, and runs
  the \<^verbatim>\<open>else\<close> branch when they differ.\<close>

lemma received_message_branch:
  assumes "self' = self\<lparr>msg_seq_no := msg_seq_no self + 1,
                        full_message := stamp (msg_seq_no self + 1) (strftime_utc now)
                          (strip_newlines websocket_msg) (full_message self)\<rparr>"
    and "\<not> is_closed (data_file self)"
    and "disk self (name (data_file self)) = Some old"
  shows "received_message now now' websocket_msg self =
           (if take 10 (strftime_utc now) = take 10 (basename (name (data_file self)))
            then write_full_message self' else rotate now' self')
       \<and> (disk (snd (received_message now now' websocket_msg self)) (name (data_file self))
             = Some (old @ dumps (JDict (full_message self')) @ [CHR 0x0A])
           \<longleftrightarrow> take 10 (strftime_utc now) = take 10 (basename (name (data_file self))))
       \<and> (received_message now now' websocket_msg self = rotate now' self'
           \<longleftrightarrow> take 10 (strftime_utc now) \<noteq> take 10 (basename (name (data_file self))))
       \<and> (take 10 (strftime_utc now) = take 10 (basename (name (data_file self)))
           \<longrightarrow> fst (received_message now now' websocket_msg self) = None
             \<and> data_file (snd (received_message now now' websocket_msg self)) = data_file self
             \<and> disk (snd (received_message now now' websocket_msg self))
                 = (disk self)(name (data_file self) \<mapsto>
                      old @ dumps (JDict (full_message self')) @ [CHR 0x0A]))"
  using assms
  by (auto simp add: received_message_eq write_full_message_eq rotate_raises Let_def
      file_close_def simp del: dumps.simps)

text \<open>
  \<^bold>\<open>C3\<close>. The decision at the first event of a recorder constructed on 2024-01-01. An
  event of 2024-01-01 has the ten characters of the file's name (the second reading of the
  clock, which is of the next day, does not count): the call returns, the data file stays
  and the line of the event is appended to it. An event of 2024-01-02 has other ten
  characters and the call enters the \<^verbatim>\<open>else\<close> branch, but no rotation occurs: the call closes
  the data file and raises \<^verbatim>\<open>TypeError\<close> at \<^verbatim>\<open>current_path.replace(".open")\<close>, leaving on the
  disk the one file of 2024-01-01, under its name with \<^verbatim>\<open>.open\<close> and empty as it was. No file
  is renamed, none is opened and the record is written nowhere.
\<close>

theorem rotation_branch_raises:
  \<open>take 10 (strftime_utc jan_1) = take 10 (basename (name (data_file feedA)))
   \<and> fst (received_message jan_1 jan_2 ''a'' feedA) = None
   \<and> data_file (snd (received_message jan_1 jan_2 ''a'' feedA)) = data_file feedA
   \<and> disk (snd (received_message jan_1 jan_2 ''a'' feedA))
       = [''/tmp/rec/2024-01-01_feedA_hostX.json.open'' \<mapsto>
            ''{"machine_id": "hostX", "msg_seq_no": 1, "pid": "4242", "session_start": "2024-01-01 23:59:58.120034 UTC", "ts_utc": "2024-01-01 23:59:58.120034 UTC", "url": "wss://feed.example/stream", "websocket_msg": "a", "ws_name": "feedA"}\<newline>'']
   \<and> take 10 (strftime_utc jan_2) \<noteq> take 10 (basename (name (data_file feedA)))
   \<and> fst (received_message jan_2 jan_2 ''c'' feedA) = Some TypeError
   \<and> data_file (snd (received_message jan_2 jan_2 ''c'' feedA))
       = \<lparr>name = ''/tmp/rec/2024-01-01_feedA_hostX.json.open'', is_closed = True\<rparr>
   \<and> disk (snd (received_message jan_2 jan_2 ''c'' feedA))
       = [''/tmp/rec/2024-01-01_feedA_hostX.json.open'' \<mapsto> []]\<close>
proof -
  have eq: "take 10 (strftime_utc jan_1) = take 10 (basename (name (data_file feedA)))"
    by (simp add: data_file_feedA basename_feedA strftime_utc_jan_1)
  have ne: "take 10 (strftime_utc jan_2) \<noteq> take 10 (basename (name (data_file feedA)))"
    by (simp add: data_file_feedA basename_feedA strftime_utc_jan_2)
  have l: "dumps (JDict (stamp 1 (strftime_utc jan_1) (strip_newlines ''a'') (full_message feedA)))
             @ [CHR 0x0A] = record_line (full_message feedA) 1 (ev jan_1 ''a'')"
    by (simp add: record_line_def record_of_def ev_def)
  have a: "received_message jan_1 jan_2 ''a'' feedA =
      (None, feedA\<lparr>msg_seq_no := 1,
               full_message := stamp 1 (strftime_utc jan_1) (strip_newlines ''a'')
                                 (full_message feedA),
               disk := [''/tmp/rec/2024-01-01_feedA_hostX.json.open'' \<mapsto>
                          record_line (full_message feedA) 1 (ev jan_1 ''a'')]\<rparr>)"
    using eq
    by (simp add: received_message_eq write_full_message_eq Let_def msg_seq_no_feedA
        data_file_feedA disk_feedA l del: dumps.simps)
  have c: "received_message jan_2 jan_2 ''c'' feedA =
      (Some TypeError,
       feedA\<lparr>msg_seq_no := 1,
             full_message := stamp 1 (strftime_utc jan_2) (strip_newlines ''c'')
                               (full_message feedA),
             data_file := \<lparr>name = ''/tmp/rec/2024-01-01_feedA_hostX.json.open'',
                           is_closed = True\<rparr>\<rparr>)"
    using ne
    by (simp add: received_message_eq Let_def msg_seq_no_feedA data_file_feedA file_close_def)
  show ?thesis
    unfolding a c using eq ne
    by (simp add: line_1 disk_feedA)
qed

lemma full_message_opened: "full_message (opened self) = full_message self"
proof -
  have "full_message (fold send ms s) = full_message s" for ms s
    by (induction ms arbitrary: s) (simp_all add: send_def)
  then show ?thesis by (simp add: opened_def)
qed

text \<open>
  \<^bold>\<open>C7\<close>. A call of \<^verbatim>\<open>received_message\<close> changes the message dictionary by the three
  assignments and nothing else, and \<^verbatim>\<open>closed\<close> and \<^verbatim>\<open>opened\<close> do not change it: under every
  key but \<^verbatim>\<open>msg_seq_no\<close>, \<^verbatim>\<open>ts_utc\<close> and \<^verbatim>\<open>websocket_msg\<close>, the dictionary holds after any
  events what it held at construction, that is the caller's value when \<^verbatim>\<open>extra_data\<close> has
  the key, and else the url, the host name, the process id, the endpoint name and the
  time of construction. Every line a session writes is the serialisation of the
  constructed dictionary with the three fields of the event set, so all of them agree
  on the other fields.
\<close>

theorem constant_fields_stable:
  assumes "k \<notin> per_record_keys"
  shows "full_message (snd (received_message t t' m self))
           = stamp (msg_seq_no self + 1) (strftime_utc t) (strip_newlines m) (full_message self)
       \<and> map_of (full_message (snd (received_message t t' m self))) k = map_of (full_message self) k
       \<and> map_of (full_message (deliver es self)) k = map_of (full_message self) k
       \<and> full_message (closed code reason self) = full_message self
       \<and> full_message (opened self) = full_message self
       \<and> map_of (record_of (full_message self) j e) k = map_of (full_message self) k
       \<and> map_of (full_message (deliver es (init now now' pid d dir u msgs n host ws hb extra))) k
           = (case map_of (rev extra) k of
                Some v \<Rightarrow> Some v
              | None \<Rightarrow> map_of [(''url'', JStr u), (''machine_id'', JStr host),
                                 (''pid'', JStr (str_nat pid)), (''ws_name'', JStr ws),
                                 (''session_start'', JStr (strftime_utc now'))] k)
       \<and> disk (deliver es (init now now' pid d dir u msgs n host ws hb extra))
            (name (data_file (init now now' pid d dir u msgs n host ws hb extra)))
           = Some ((case d (name (data_file (init now now' pid d dir u msgs n host ws hb extra)))
                      of None \<Rightarrow> [] | Some c \<Rightarrow> c)
                   @ concat (record_lines
                       (full_message (init now now' pid d dir u msgs n host ws hb extra)) 0
                       (takeWhile (same_day (init now now' pid d dir u msgs n host ws hb extra))
                          es)))"
proof -
  let ?s = "init now now' pid d dir u msgs n host ws hb extra"
  have op: "\<not> is_closed (data_file ?s)"
    by (simp add: init_fields)
  have disk: "disk (deliver es ?s) (name (data_file ?s))
       = Some ((case d (name (data_file ?s)) of None \<Rightarrow> [] | Some c \<Rightarrow> c)
               @ concat (record_lines (full_message ?s) 0 (takeWhile (same_day ?s) es)))"
    using deliver_disk [OF op disk_init, of es] by (simp add: init_fields del: dumps.simps)
  have k: "k \<noteq> ''msg_seq_no''" "k \<noteq> ''ts_utc''" "k \<noteq> ''websocket_msg''"
    using assms by (auto simp add: per_record_keys_def)
  have tmpl: "map_of (full_message (deliver es ?s)) k
           = (case map_of (rev extra) k of
                Some v \<Rightarrow> Some v
              | None \<Rightarrow> map_of [(''url'', JStr u), (''machine_id'', JStr host),
                                 (''pid'', JStr (str_nat pid)), (''ws_name'', JStr ws),
                                 (''session_start'', JStr (strftime_utc now'))] k)"
    using k by (simp add: full_message_deliver [OF assms] full_message_init split: option.splits)
  show ?thesis
    using k disk tmpl
    by (simp add: full_message_received full_message_deliver [OF assms] full_message_opened
        closed_def record_of_def map_of_stamp del: dumps.simps)
qed

text \<open>The url in the scenario, after three events and in the record of the second.\<close>

theorem constant_fields_stable_witness:
  "''url'' \<notin> per_record_keys
   \<and> map_of (full_message (deliver [ev jan_1 ''a'', ev jan_1 ''b\<newline>'', ev jan_2 ''c''] feedA)) ''url''
       = Some (JStr ''wss://feed.example/stream'')
   \<and> map_of (record_of (full_message feedA) 2 (ev jan_1 ''b\<newline>'')) ''url''
       = Some (JStr ''wss://feed.example/stream'')"
proof -
  have 1: "''url'' \<notin> per_record_keys"
    by (simp add: per_record_keys_def)
  note t = constant_fields_stable [OF 1, where self = feedA
      and es = "[ev jan_1 ''a'', ev jan_1 ''b\<newline>'', ev jan_2 ''c'']" and j = 2
      and e = "ev jan_1 ''b\<newline>''"]
  from t have "map_of (full_message (deliver [ev jan_1 ''a'', ev jan_1 ''b\<newline>'', ev jan_2 ''c'']
                  feedA)) ''url'' = map_of (full_message feedA) ''url''"
    by blast
  moreover from t have "map_of (record_of (full_message feedA) 2 (ev jan_1 ''b\<newline>'')) ''url''
       = map_of (full_message feedA) ''url''"
    by blast
  ultimately show ?thesis
    using 1 by (simp add: full_message_feedA)
qed

lemma zfill_digit: "n < 10 \<Longrightarrow> zfill (Suc w) n = replicate w (CHR ''0'') @ [digit n]"
  by (subst zfill.simps) simp

lemma digit_0: "digit 0 = CHR ''0''"
  by code_simp

lemma zfill_Suc_Suc:
  "zfill (Suc (Suc w)) n = zfill (Suc w) (n div 10) @ [digit (n mod 10)]"
proof (cases "n < 10")
  case True
  then show ?thesis
    by (simp add: zfill_digit replicate_append_same digit_0)
next
  case False
  then show ?thesis
    by (subst zfill.simps) simp
qed

lemma zfill_2: "n < 100 \<Longrightarrow> zfill 2 n = [digit (n div 10), digit (n mod 10)]"
proof -
  assume "n < 100"
  then have "n div 10 < 10" by simp
  then show ?thesis
    by (simp add: numeral_2_eq_2 zfill_Suc_Suc zfill_digit)
qed

lemma zfill_4:
  "n < 10000 \<Longrightarrow>
     zfill 4 n = [digit (n div 1000), digit (n div 100 mod 10), digit (n div 10 mod 10),
                  digit (n mod 10)]"
proof -
  assume "n < 10000"
  then have "n div 10 div 10 div 10 < 10" by simp
  moreover have "n div 10 div 10 = n div 100" "n div 10 div 10 div 10 = n div 1000"
    by (simp_all add: div_mult2_eq [symmetric])
  ultimately have "zfill (Suc (Suc (Suc (Suc 0)))) n
      = [digit (n div 1000), digit (n div 100 mod 10), digit (n div 10 mod 10), digit (n mod 10)]"
    by (simp add: zfill_Suc_Suc zfill_digit)
  moreover have "(4::nat) = Suc (Suc (Suc (Suc 0)))" by simp
  ultimately show ?thesis
    by (simp only:)
qed

lemma strftime_date_digits:
  assumes "valid_datetime t"
  shows "strftime_date t =
           [digit (year t div 1000), digit (year t div 100 mod 10), digit (year t div 10 mod 10),
            digit (year t mod 10), CHR ''-'', digit (month t div 10), digit (month t mod 10),
            CHR ''-'', digit (day t div 10), digit (day t mod 10)]"
proof -
  from assms have "year t < 10000" "month t < 100" "day t < 100"
    by (simp_all add: valid_datetime_def)
  then show ?thesis
    by (simp add: strftime_date_def zfill_4 zfill_2)
qed

text \<open>
  \<^bold>\<open>C8\<close>. \<^verbatim>\<open>generate_filename\<close> returns the data directory, a slash, the date, an
  underscore, the endpoint name, an underscore, the host name and \<^verbatim>\<open>.json.open\<close>; the date
  of a valid clock reading is four digits of the year, a hyphen, two digits of the month,
  a hyphen and two digits of the day. The constructor opens the file of that path for the
  clock at construction, and an event of the day of the open file leaves the file object,
  and with it the path, as it is, whatever the clock says.
\<close>

theorem generate_filename_path:
  "generate_filename now self
     = data_dir self @ ''/'' @ strftime_date now @ ''_'' @ ws_name self @ ''_'' @ hostname self
         @ ''.json.open''
   \<and> (valid_datetime now \<longrightarrow>
        strftime_date now =
          [digit (year now div 1000), digit (year now div 100 mod 10),
           digit (year now div 10 mod 10), digit (year now mod 10), CHR ''-'',
           digit (month now div 10), digit (month now mod 10), CHR ''-'',
           digit (day now div 10), digit (day now mod 10)])
   \<and> data_file (init now now' pid d dir u msgs n host ws hb extra)
       = \<lparr>name = dir @ ''/'' @ strftime_date now @ ''_'' @ ws @ ''_'' @ host @ ''.json.open'',
          is_closed = False\<rparr>
   \<and> (take 10 (strftime_utc t) = take 10 (basename (name (data_file self))) \<longrightarrow>
        data_file (snd (received_message t t' m self)) = data_file self)"
  by (simp add: generate_filename_def strftime_date_digits init_fields received_message_eq
      write_full_message_eq Let_def del: dumps.simps)

text \<open>The path of the scenario.\<close>

theorem generate_filename_path_witness:
  "valid_datetime jan_1
   \<and> strftime_date jan_1 = ''2024-01-01''
   \<and> generate_filename jan_1 feedA = ''/tmp/rec/2024-01-01_feedA_hostX.json.open''
   \<and> take 10 (strftime_utc jan_1) = take 10 (basename (name (data_file feedA)))
   \<and> data_file (snd (received_message jan_1 jan_2 ''a'' feedA))
       = \<lparr>name = ''/tmp/rec/2024-01-01_feedA_hostX.json.open'', is_closed = False\<rparr>"
proof -
  have 1: "valid_datetime jan_1"
    by (simp add: valid_datetime_def jan_1_def)
  have 2: "take 10 (strftime_utc jan_1) = take 10 (basename (name (data_file feedA)))"
    by (simp add: data_file_feedA basename_feedA strftime_utc_jan_1)
  have 3: "data_dir feedA = ''/tmp/rec''" "ws_name feedA = ''feedA''" "hostname feedA = ''hostX''"
    by (simp_all add: feedA_def init_def generate_filename_def open_append_def Let_def
        split: option.splits)
  from generate_filename_path [of jan_1 feedA _ _ _ _ _ _ _ _ _ _ _ jan_1 jan_2 "''a''"] 1 2 3
  show ?thesis
    by (simp add: strftime_date_jan_1 data_file_feedA)
qed

lemma data_file_deliver_same_day:
  "\<not> is_closed (data_file self) \<Longrightarrow> list_all (same_day self) es \<Longrightarrow>
     data_file (deliver es self) = data_file self"
proof (induction es arbitrary: self)
  case Nil
  then show ?case by simp
next
  case (Cons e es)
  let ?s = "snd (received_message (at e) (at_open e) (payload e) self)"
  from Cons.prems have "data_file ?s = data_file self"
    by (simp add: received_message_eq write_full_message_eq Let_def same_day_def)
  moreover from this have "same_day ?s = same_day self"
    by (simp add: same_day_def fun_eq_iff)
  ultimately show ?case
    using Cons by simp
qed

text \<open>
  \<^bold>\<open>C1\<close>. The rotation as the source has it: the scenario of the specification, two
  events on 2024-01-01 and a third on 2024-01-02. The third call closes the data file and
  then raises \<^verbatim>\<open>TypeError\<close>, because \<^verbatim>\<open>current_path.replace(".open")\<close> passes one argument to
  \<^verbatim>\<open>str.replace\<close>: the file of 2024-01-01 is not renamed and keeps its two lines, no
  file of 2024-01-02 is opened, and the record of the third event is written nowhere.
\<close>

theorem rotation_raises_TypeError:
  \<open>fst (received_message jan_2 jan_2 ''c'' (deliver [ev jan_1 ''a'', ev jan_1 ''b\<newline>''] feedA))
     = Some TypeError
   \<and> data_file (snd (received_message jan_2 jan_2 ''c''
        (deliver [ev jan_1 ''a'', ev jan_1 ''b\<newline>''] feedA)))
     = \<lparr>name = ''/tmp/rec/2024-01-01_feedA_hostX.json.open'', is_closed = True\<rparr>
   \<and> dom (disk (snd (received_message jan_2 jan_2 ''c''
        (deliver [ev jan_1 ''a'', ev jan_1 ''b\<newline>''] feedA))))
     = {''/tmp/rec/2024-01-01_feedA_hostX.json.open''}
   \<and> disk (snd (received_message jan_2 jan_2 ''c''
        (deliver [ev jan_1 ''a'', ev jan_1 ''b\<newline>''] feedA)))
        ''/tmp/rec/2024-01-01_feedA_hostX.json''
     = None
   \<and> disk (snd (received_message jan_2 jan_2 ''c''
        (deliver [ev jan_1 ''a'', ev jan_1 ''b\<newline>''] feedA)))
        ''/tmp/rec/2024-01-02_feedA_hostX.json.open''
     = None
   \<and> disk (snd (received_message jan_2 jan_2 ''c''
        (deliver [ev jan_1 ''a'', ev jan_1 ''b\<newline>''] feedA)))
        ''/tmp/rec/2024-01-01_feedA_hostX.json.open''
     = Some (''{"machine_id": "hostX", "msg_seq_no": 1, "pid": "4242", "session_start": "2024-01-01 23:59:58.120034 UTC", "ts_utc": "2024-01-01 23:59:58.120034 UTC", "url": "wss://feed.example/stream", "websocket_msg": "a", "ws_name": "feedA"}\<newline>''
         @ ''{"machine_id": "hostX", "msg_seq_no": 2, "pid": "4242", "session_start": "2024-01-01 23:59:58.120034 UTC", "ts_utc": "2024-01-01 23:59:58.120034 UTC", "url": "wss://feed.example/stream", "websocket_msg": "b", "ws_name": "feedA"}\<newline>'')\<close>
proof -
  let ?p = "''/tmp/rec/2024-01-01_feedA_hostX.json.open''"
  let ?s = "deliver [ev jan_1 ''a'', ev jan_1 ''b\<newline>''] feedA"
  have op: "\<not> is_closed (data_file feedA)"
    by (simp add: data_file_feedA)
  have ex: "disk feedA (name (data_file feedA)) = Some []"
    by (simp add: data_file_feedA disk_feedA)
  have f: "data_file ?s = \<lparr>name = ?p, is_closed = False\<rparr>"
    using data_file_deliver_same_day [OF op, of "[ev jan_1 ''a'', ev jan_1 ''b\<newline>'']"]
    by (simp add: same_day_feedA_jan_1 data_file_feedA)
  have d: "disk ?s = [?p \<mapsto> record_line (full_message feedA) 1 (ev jan_1 ''a'')
                          @ record_line (full_message feedA) 2 (ev jan_1 ''b\<newline>'')]"
    using deliver_disk [OF op ex, of "[ev jan_1 ''a'', ev jan_1 ''b\<newline>'']"]
    by (simp add: same_day_feedA_jan_1 data_file_feedA disk_feedA msg_seq_no_feedA)
  have ne: "take 10 (strftime_utc jan_2) \<noteq> take 10 (basename (name (data_file ?s)))"
    by (simp add: f basename_feedA strftime_utc_jan_2 del: deliver.simps)
  have r: "received_message jan_2 jan_2 ''c'' ?s =
     (Some TypeError,
      ?s\<lparr>msg_seq_no := msg_seq_no ?s + 1,
          full_message := stamp (msg_seq_no ?s + 1) (strftime_utc jan_2) (strip_newlines ''c'')
                            (full_message ?s),
          data_file := file_close (data_file ?s)\<rparr>)"
    using ne by (simp add: received_message_eq Let_def del: deliver.simps)
  show ?thesis
    unfolding r
    by (simp add: f d file_close_def line_1 line_2 del: deliver.simps)
qed

subsection \<open>Reading a written line back\<close>































lemma join_Cons_Cons: "join sep (x # y # ys) @ r = x @ sep @ join sep (y # ys) @ r"
  by simp

















lemma set_update_cases:
  "kv \<in> set (AList.update k v d) \<Longrightarrow> kv = (k, v) \<or> kv \<in> set d"
  by (induction d) (auto split: if_splits)

lemma wf_update:
  "wf_jval (JDict d) \<Longrightarrow> wf_jval v \<Longrightarrow> wf_jval (JDict (AList.update k v d))"
  by (auto simp add: distinct_update dest!: set_update_cases)

lemma wf_stamp: "wf_jval (JDict fm) \<Longrightarrow> wf_jval (JDict (stamp n ts text fm))"
  unfolding stamp_def by (intro wf_update) simp_all

lemma wf_dict_update:
  "wf_jval (JDict d) \<Longrightarrow> \<forall>kv \<in> set e. wf_jval (snd kv) \<Longrightarrow> wf_jval (JDict (dict_update d e))"
  unfolding dict_update_def
proof (induction e arbitrary: d)
  case Nil
  then show ?case by simp
next
  case (Cons kv e)
  obtain k v where kv: "kv = (k, v)" by (cases kv)
  with Cons.prems have "wf_jval (JDict (AList.update k v d))"
    by (intro wf_update) simp_all
  with Cons show ?case
    by (simp add: kv)
qed

lemma wf_init:
  assumes "\<forall>kv \<in> set extra. wf_jval (snd kv)"
  shows "wf_jval (JDict (full_message (init now now' pid d dir u msgs n host ws hb extra)))"
proof -
  let ?t = "[(''msg_seq_no'', JNull), (''url'', JStr u), (''machine_id'', JStr host),
             (''pid'', JStr (str_nat pid)), (''ws_name'', JStr ws),
             (''session_start'', JStr (strftime_utc now')), (''ts_utc'', JNull),
             (''websocket_msg'', JNull)]"
  have t: "wf_jval (JDict ?t)" by simp
  have "full_message (init now now' pid d dir u msgs n host ws hb extra)
          = (if extra = [] then ?t else dict_update ?t extra)"
    by (simp add: init_def generate_filename_def open_append_def Let_def split: option.splits)
  with wf_dict_update [OF t assms] t show ?thesis
    by (simp del: wf_jval.simps)
qed

lemma wf_received:
  "wf_jval (JDict (full_message self)) \<Longrightarrow>
     wf_jval (JDict (full_message (snd (received_message now now' m self))))"
  by (simp only: full_message_received wf_stamp)

lemma wf_deliver:
  "wf_jval (JDict (full_message self)) \<Longrightarrow> wf_jval (JDict (full_message (deliver es self)))"
proof (induction es arbitrary: self)
  case Nil
  then show ?case by simp
next
  case (Cons e es)
  from Cons.IH [OF wf_received [OF Cons.prems]] show ?case
    by (simp del: wf_jval.simps)
qed



end
